theory Spec2Isabelle
  imports Main "HOL-Library.Sublist" "HOL-Library.Word"
begin

section \<open>Values, dictionaries and errors\<close>

text \<open>
  The values a job record holds: \<open>None\<close>, strings, integers, booleans and dictionaries
  from strings to strings (the \<open>headers\<close> and \<open>cookies\<close> of an HTTP job). A Python
  \<open>str\<close> is modelled as a list of characters with code points below 256.
\<close>

datatype pyval =
    PNone
  | PStr string
  | PInt int
  | PBool bool
  | PDict "(string \<times> string) list"

text \<open>
  A Python \<open>dict\<close> with string keys is an association list in insertion order.
  \<open>d[k] = v\<close> overwrites in place when the key is there and appends otherwise.
\<close>

type_synonym 'v dict = "(string \<times> 'v) list"

definition keys :: "'v dict \<Rightarrow> string list" where
  "keys d = map fst d"

definition dict_get :: "'v dict \<Rightarrow> string \<Rightarrow> 'v option" where
  "dict_get d k = map_of d k"

definition dict_set :: "'v dict \<Rightarrow> string \<Rightarrow> 'v \<Rightarrow> 'v dict" where
  "dict_set d k v =
     (if k \<in> set (keys d) then map (\<lambda>(k', v'). if k' = k then (k', v) else (k', v')) d
      else d @ [(k, v)])"

definition dict_pop :: "'v dict \<Rightarrow> string \<Rightarrow> 'v dict" where
  "dict_pop d k = filter (\<lambda>(k', v'). k' \<noteq> k) d"

text \<open>
  Storing a sequence of items one after the other: \<open>d.update(e)\<close>, a keyword call
  \<open>**e\<close>, and a dictionary comprehension (into the empty dictionary).
\<close>

fun set_all :: "'v dict \<Rightarrow> 'v dict \<Rightarrow> 'v dict" where
  "set_all [] a = a"
| "set_all ((k, v) # kvs) a = set_all kvs (dict_set a k v)"

definition dict_update :: "'v dict \<Rightarrow> 'v dict \<Rightarrow> 'v dict" where
  "dict_update d e = set_all e d"

definition dict_of :: "'v dict \<Rightarrow> 'v dict" where
  "dict_of items = set_all items []"

text \<open>Truthiness of a value, as \<open>if v:\<close> tests it.\<close>

fun truthy :: "pyval \<Rightarrow> bool" where
  "truthy PNone = False"
| "truthy (PStr s) = (s \<noteq> [])"
| "truthy (PInt i) = (i \<noteq> 0)"
| "truthy (PBool b) = b"
| "truthy (PDict d) = (d \<noteq> [])"

subsection \<open>\<open>repr\<close>, as the \<open>%r\<close> of the error messages prints it\<close>

definition hex_digit :: "nat \<Rightarrow> char" where
  "hex_digit n = (if n < 10 then char_of (48 + n) else char_of (87 + n))"

definition printable :: "char \<Rightarrow> bool" where
  "printable c = (let n = (of_char c :: nat) in
     \<not> (n < 32 \<or> n = 127 \<or> (128 \<le> n \<and> n \<le> 160) \<or> n = 173))"

definition repr_char :: "char \<Rightarrow> char \<Rightarrow> string" where
  "repr_char q c =
     (if c = q \<or> c = CHR 0x5C then [CHR 0x5C, c]
      else if c = CHR 0x09 then [CHR 0x5C, CHR ''t'']
      else if c = CHR 0x0A then [CHR 0x5C, CHR ''n'']
      else if c = CHR 0x0D then [CHR 0x5C, CHR ''r'']
      else if \<not> printable c then
        [CHR 0x5C, CHR ''x'', hex_digit ((of_char c :: nat) div 16), hex_digit ((of_char c :: nat) mod 16)]
      else [c])"

definition repr_str :: "string \<Rightarrow> string" where
  "repr_str s =
     (let q = (if CHR 0x27 \<in> set s \<and> CHR 0x22 \<notin> set s then CHR 0x22 else CHR 0x27)
      in [q] @ concat (map (repr_char q) s) @ [q])"

text \<open>A character that \<open>repr\<close> prints as it is between single quotes.\<close>

definition plain_char :: "char \<Rightarrow> bool" where
  "plain_char c \<longleftrightarrow> printable c \<and> c \<noteq> CHR 0x27 \<and> c \<noteq> CHR 0x5C"

fun digits10 :: "nat \<Rightarrow> string" where
  "digits10 n = (if n < 10 then [char_of (48 + n)]
                 else digits10 (n div 10) @ [char_of (48 + n mod 10)])"

declare digits10.simps [simp del]

definition repr_int :: "int \<Rightarrow> string" where
  "repr_int i = (if i < 0 then ''-'' @ digits10 (nat (- i)) else digits10 (nat i))"

fun join :: "string \<Rightarrow> string list \<Rightarrow> string" where
  "join sep [] = []"
| "join sep [x] = x"
| "join sep (x # y # ys) = x @ sep @ join sep (y # ys)"

definition repr_list :: "string list \<Rightarrow> string" where
  "repr_list xs = ''['' @ join '', '' (map repr_str xs) @ '']''"

definition repr_strdict :: "(string \<times> string) list \<Rightarrow> string" where
  "repr_strdict d = ''{'' @ join '', '' (map (\<lambda>(k, v). repr_str k @ '': '' @ repr_str v) d) @ ''}''"

fun repr :: "pyval \<Rightarrow> string" where
  "repr PNone = ''None''"
| "repr (PStr s) = repr_str s"
| "repr (PInt i) = repr_int i"
| "repr (PBool b) = (if b then ''True'' else ''False'')"
| "repr (PDict d) = repr_strdict d"

definition repr_dict :: "pyval dict \<Rightarrow> string" where
  "repr_dict d = ''{'' @ join '', '' (map (\<lambda>(k, v). repr_str k @ '': '' @ repr v) d) @ ''}''"

subsection \<open>Exceptions\<close>

text \<open>
  \<open>ValueError\<close> carries its message, \<open>KeyError\<close> the key and \<open>AttributeError\<close> the name
  of the attribute. The messages of the other exceptions of the interpreter are not
  modelled.
\<close>

datatype error =
    ValueError string
  | KeyError pyval
  | TypeError
  | AttributeError string
  | RuntimeError string
  | NotImplementedError
  | NotModifiedError
  | ShellError int
  | HTTPError int
  | RequestException
  | OSError
  | UnicodeDecodeError
  | LookupError

section \<open>Job classes and job objects\<close>

text \<open>
  What an attribute of a job object can hold: a value of a record, or an event loop
  (by reference). What reading an attribute can give besides: an object of the class
  (a bound method, a tuple, a compiled pattern), named after the attribute.
\<close>

datatype ival = Data pyval | EventLoop nat

datatype aval = Val ival | Obj string

text \<open>
  A job class: one of the three classes of \<open>jobs.py\<close>, or a class that extends one of
  them and declares its own \<open>__kind__\<close>, \<open>__required__\<close>, \<open>__optional__\<close> and
  documentation string, and nothing else (the tuples hold the names of the class followed
  by the inherited ones; \<open>module\<close> is the name of the module that declares the class).
\<close>

datatype job_base = ShellBase | UrlBase | BrowserBase

record kind_desc =
  kind :: string
  required :: "string list"
  optional :: "string list"
  base :: job_base
  doc :: "string option"
  module :: string

text \<open>\<open>BrowserJob\<close> is the one class that extends \<open>AsyncJob\<close>.\<close>

definition is_async :: "kind_desc \<Rightarrow> bool" where
  "is_async c \<longleftrightarrow> base c = BrowserBase"

text \<open>\<open>JobBase.__subclasses__\<close>: a dictionary from tags to classes.\<close>

type_synonym registry = "kind_desc dict"

text \<open>
  The one attribute of a class that changes while the program runs:
  \<open>BrowserJob.browser\<close>, \<open>None\<close> or a reference to the launched browser.
\<close>

type_synonym class_state = "nat option"

text \<open>A job object: its class and its instance dictionary.\<close>

record job =
  jcls :: kind_desc
  attrs :: "ival dict"

subsection \<open>Reading and writing attributes\<close>

text \<open>
  The attributes that are found on a class and its bases when an instance does not have
  them itself, besides \<open>__kind__\<close>, \<open>__required__\<close>, \<open>__optional__\<close> and \<open>browser\<close>: the
  methods and constants that \<open>jobs.py\<close> defines, and the attributes of \<open>object\<close> in the
  versions of Python that have \<open>asyncio.coroutine\<close> (up to 3.10).
\<close>

definition object_attrs :: "string list" where
  "object_attrs = [''__delattr__'', ''__dir__'', ''__eq__'', ''__format__'', ''__ge__'',
     ''__getattribute__'', ''__gt__'', ''__hash__'', ''__init__'', ''__init_subclass__'',
     ''__le__'', ''__lt__'', ''__ne__'', ''__new__'', ''__reduce__'', ''__reduce_ex__'',
     ''__repr__'', ''__setattr__'', ''__sizeof__'', ''__str__'', ''__subclasshook__'']"

definition job_attrs :: "string list" where
  "job_attrs = [''__subclasses__'', ''job_documentation'', ''get_location'', ''pretty_name'',
     ''serialize'', ''unserialize'', ''to_dict'', ''from_dict'', ''get_guid'', ''retrieve'']"

fun base_attrs :: "job_base \<Rightarrow> string list" where
  "base_attrs ShellBase = []"
| "base_attrs UrlBase = [''CHARSET_RE'', ''add_custom_headers'']"
| "base_attrs BrowserBase = [''setup'', ''cleanup'', ''_render'']"

definition class_attr :: "kind_desc \<Rightarrow> aval dict" where
  "class_attr c =
     map (\<lambda>n. (n, Obj n)) (base_attrs (base c) @ job_attrs @ object_attrs)
     @ [(''__doc__'', Val (Data (case doc c of None \<Rightarrow> PNone | Some s \<Rightarrow> PStr s))),
        (''__module__'', Val (Data (PStr (module c)))),
        (''LOCATION_IS_URL'', Val (Data (PBool (base c \<noteq> ShellBase))))]"

definition class_lookup :: "class_state \<Rightarrow> kind_desc \<Rightarrow> string \<Rightarrow> aval option" where
  "class_lookup cs c n =
     (if n = ''__kind__'' then Some (Val (Data (PStr (kind c))))
      else if n = ''__required__'' then Some (Obj ''__required__'')
      else if n = ''__optional__'' then Some (Obj ''__optional__'')
      else if n = ''browser'' \<and> base c = BrowserBase then
        Some (case cs of None \<Rightarrow> Val (Data PNone) | Some b \<Rightarrow> Obj ''browser'')
      else dict_get (class_attr c) n)"

text \<open>
  \<open>getattr(self, n)\<close> and \<open>self.n\<close>: the three attributes that every object has come
  first, then the instance dictionary, then the class.
\<close>

definition py_getattr :: "class_state \<Rightarrow> job \<Rightarrow> string \<Rightarrow> error + aval" where
  "py_getattr cs j n =
     (if n = ''__class__'' then Inr (Obj ''__class__'')
      else if n = ''__dict__'' then Inr (Obj ''__dict__'')
      else if n = ''__weakref__'' then Inr (Val (Data PNone))
      else case dict_get (attrs j) n of
             Some v \<Rightarrow> Inr (Val v)
           | None \<Rightarrow> (case class_lookup cs (jcls j) n of
                        Some v \<Rightarrow> Inr v
                      | None \<Rightarrow> Inl (AttributeError n)))"

text \<open>
  \<open>setattr(self, n, v)\<close>: \<open>__class__\<close> takes a class only, \<open>__dict__\<close> takes a dictionary,
  which then is the instance dictionary, \<open>__weakref__\<close> cannot be written; any other
  name is stored in the instance dictionary.
\<close>

definition py_setattr :: "job \<Rightarrow> string \<Rightarrow> ival \<Rightarrow> error + job" where
  "py_setattr j n v =
     (if n = ''__class__'' then Inl TypeError
      else if n = ''__dict__'' then
        (case v of
           Data (PDict d) \<Rightarrow> Inr (j\<lparr>attrs := map (\<lambda>(k, s). (k, Data (PStr s))) d\<rparr>)
         | _ \<Rightarrow> Inl TypeError)
      else if n = ''__weakref__'' then Inl (AttributeError n)
      else Inr (j\<lparr>attrs := dict_set (attrs j) n v\<rparr>))"

text \<open>
  \<open>for k in v\<close> for an attribute value: a string gives its characters, a dictionary
  its keys, nothing else can be iterated.
\<close>

fun iterate :: "ival \<Rightarrow> error + string list" where
  "iterate (Data (PStr s)) = Inr (map (\<lambda>c. [c]) s)"
| "iterate (Data (PDict d)) = Inr (map fst d)"
| "iterate _ = Inl TypeError"

text \<open>
  \<open>for k in self.__required__\<close> and \<open>for k in self.__optional__\<close>: the tuple of the
  class, unless the instance has an attribute of that name.
\<close>

definition required_of :: "job \<Rightarrow> error + string list" where
  "required_of j =
     (case dict_get (attrs j) ''__required__'' of
        None \<Rightarrow> Inr (required (jcls j))
      | Some v \<Rightarrow> iterate v)"

definition optional_of :: "job \<Rightarrow> error + string list" where
  "optional_of j =
     (case dict_get (attrs j) ''__optional__'' of
        None \<Rightarrow> Inr (optional (jcls j))
      | Some v \<Rightarrow> iterate v)"

subsection \<open>Construction (\<open>JobBase.__init__\<close>, \<open>AsyncJob.__init__\<close>)\<close>

fun set_optional :: "string list \<Rightarrow> pyval dict \<Rightarrow> job \<Rightarrow> error + job" where
  "set_optional [] kwargs j = Inr j"
| "set_optional (k # ks) kwargs j =
     (if k \<notin> set (keys kwargs) then
        (case py_setattr j k (Data PNone) of
           Inl e \<Rightarrow> Inl e
         | Inr j' \<Rightarrow> set_optional ks kwargs j')
      else set_optional ks kwargs j)"

fun check_required :: "string list \<Rightarrow> pyval dict \<Rightarrow> error + unit" where
  "check_required [] kwargs = Inr ()"
| "check_required (k # ks) kwargs =
     (if k \<notin> set (keys kwargs)
      then Inl (ValueError (''Required field '' @ k @ '' missing: '' @ repr_dict kwargs))
      else check_required ks kwargs)"

fun set_attrs :: "pyval dict \<Rightarrow> job \<Rightarrow> error + job" where
  "set_attrs [] j = Inr j"
| "set_attrs ((k, v) # kvs) j =
     (case py_setattr j k (Data v) of
        Inl e \<Rightarrow> Inl e
      | Inr j' \<Rightarrow> set_attrs kvs j')"

definition JobBase_init :: "job \<Rightarrow> pyval dict \<Rightarrow> error + job" where
  "JobBase_init self kwargs =
     (case optional_of self of
        Inl e \<Rightarrow> Inl e
      | Inr opts \<Rightarrow>
     (case set_optional opts kwargs self of
        Inl e \<Rightarrow> Inl e
      | Inr self1 \<Rightarrow>
     (case required_of self1 of
        Inl e \<Rightarrow> Inl e
      | Inr reqs \<Rightarrow>
     (case check_required reqs kwargs of
        Inl e \<Rightarrow> Inl e
      | Inr _ \<Rightarrow> set_attrs kwargs self1))))"

definition AsyncJob_init :: "job \<Rightarrow> pyval dict \<Rightarrow> error + job" where
  "AsyncJob_init self kwargs =
     (case JobBase_init self kwargs of
        Inl e \<Rightarrow> Inl e
      | Inr self1 \<Rightarrow> py_setattr self1 ''loop'' (Data PNone))"

text \<open>
  Calling the class: \<open>cls(**kwargs)\<close>. The first parameter of \<open>__init__\<close> is \<open>self\<close>, so
  a keyword of that name is refused; otherwise \<open>__init__\<close> runs on a new object.
\<close>

definition new_job :: "kind_desc \<Rightarrow> pyval dict \<Rightarrow> error + job" where
  "new_job c kwargs =
     (if ''self'' \<in> set (keys kwargs) then Inl TypeError
      else if is_async c then AsyncJob_init \<lparr>jcls = c, attrs = []\<rparr> kwargs
      else JobBase_init \<lparr>jcls = c, attrs = []\<rparr> kwargs)"

subsection \<open>Serialization (\<open>to_dict\<close>, \<open>serialize\<close>)\<close>

text \<open>
  The items that the comprehension of \<open>to_dict\<close> gives for a sequence of names, in
  order; the first attribute that cannot be read raises.
\<close>

fun collect_fields :: "class_state \<Rightarrow> job \<Rightarrow> string list \<Rightarrow> error + aval dict" where
  "collect_fields cs j [] = Inr []"
| "collect_fields cs j (k # ks) =
     (case py_getattr cs j k of
        Inl e \<Rightarrow> Inl e
      | Inr v \<Rightarrow>
          (case collect_fields cs j ks of
             Inl e \<Rightarrow> Inl e
           | Inr items \<Rightarrow> Inr (if v \<noteq> Val (Data PNone) then (k, v) # items else items)))"

definition to_dict :: "class_state \<Rightarrow> job \<Rightarrow> error + aval dict" where
  "to_dict cs j =
     (case required_of j of
        Inl e \<Rightarrow> Inl e
      | Inr rs \<Rightarrow>
     (case collect_fields cs j rs of
        Inl e \<Rightarrow> Inl e
      | Inr ritems \<Rightarrow>
     (case optional_of j of
        Inl e \<Rightarrow> Inl e
      | Inr os \<Rightarrow>
     (case collect_fields cs j os of
        Inl e \<Rightarrow> Inl e
      | Inr oitems \<Rightarrow> Inr (dict_of (ritems @ oitems))))))"

text \<open>
  \<open>serialize\<close> reads \<open>self.__kind__\<close> and calls \<open>self.to_dict()\<close>; an instance attribute
  called \<open>to_dict\<close> hides the method and cannot be called.
\<close>

definition serialize :: "class_state \<Rightarrow> job \<Rightarrow> error + aval dict" where
  "serialize cs j =
     (case py_getattr cs j ''__kind__'' of
        Inl e \<Rightarrow> Inl e
      | Inr kv \<Rightarrow>
          if ''to_dict'' \<in> set (keys (attrs j)) then Inl TypeError
          else (case to_dict cs j of
                  Inl e \<Rightarrow> Inl e
                | Inr d \<Rightarrow> Inr (dict_update [(''kind'', kv)] d)))"

text \<open>A record, as the dictionary of attribute values that \<open>serialize\<close> returns.\<close>

definition record_avals :: "pyval dict \<Rightarrow> aval dict" where
  "record_avals r = map (\<lambda>(k, v). (k, Val (Data v))) r"

subsection \<open>Deserialization (\<open>from_dict\<close>, \<open>unserialize\<close>)\<close>

definition from_dict :: "kind_desc \<Rightarrow> pyval dict \<Rightarrow> error + job" where
  "from_dict c data =
     new_job c (dict_of (filter (\<lambda>(k, v). k \<in> set (required c) \<or> k \<in> set (optional c)) data))"

text \<open>The condition of the comprehension of \<open>unserialize\<close> (lines 113 and 114).\<close>

definition matches :: "kind_desc \<Rightarrow> pyval dict \<Rightarrow> bool" where
  "matches c data \<longleftrightarrow>
     (\<forall>r \<in> set (required c). r \<in> set (keys data))
     \<and> \<not> (\<exists>key \<in> set (keys data). key \<notin> set (required c) \<and> key \<notin> set (optional c))"

definition detect_kinds :: "registry \<Rightarrow> pyval dict \<Rightarrow> string list" where
  "detect_kinds reg data = map kind (filter (\<lambda>c. matches c data) (map snd reg))"

text \<open>\<open>cls.__subclasses__[kind]\<close>, for whatever value \<open>kind\<close> holds.\<close>

definition subclass_lookup :: "registry \<Rightarrow> pyval \<Rightarrow> error + kind_desc" where
  "subclass_lookup reg kv =
     (case kv of
        PStr t \<Rightarrow> (case dict_get reg t of None \<Rightarrow> Inl (KeyError kv) | Some c \<Rightarrow> Inr c)
      | PDict d \<Rightarrow> Inl TypeError
      | _ \<Rightarrow> Inl (KeyError kv))"

text \<open>Lines 110 to 123 of \<open>unserialize\<close>: the value of the variable \<open>kind\<close>.\<close>

definition unserialize_kind :: "registry \<Rightarrow> pyval dict \<Rightarrow> error + pyval" where
  "unserialize_kind reg data =
     (if ''kind'' \<notin> set (keys data) then
        (let kinds = detect_kinds reg data in
         if length kinds = 1 then Inr (PStr (kinds ! 0))
         else if length kinds = 0 then
           Inl (ValueError (''Kind is not specified, and no job matches: '' @ repr_dict data))
         else
           Inl (ValueError (''Multiple kinds of jobs match '' @ repr_dict data @ '': ''
                            @ repr_list kinds)))
      else
        (case dict_get data ''kind'' of
           None \<Rightarrow> Inl (KeyError (PStr ''kind''))
         | Some kv \<Rightarrow> Inr kv))"

definition unserialize :: "registry \<Rightarrow> pyval dict \<Rightarrow> error + job" where
  "unserialize reg data =
     (case unserialize_kind reg data of
        Inl e \<Rightarrow> Inl e
      | Inr kv \<Rightarrow>
          (case subclass_lookup reg kv of
             Inl e \<Rightarrow> Inl e
           | Inr c \<Rightarrow> from_dict c data))"

subsection \<open>Ordinary classes, well-formed registries and valid jobs\<close>

text \<open>
  The field names of an ordinary class are none of the names that the object model or
  the methods above treat specially, and an asynchronous class has no field \<open>loop\<close>,
  the attribute that \<open>AsyncJob\<close> keeps for itself.
\<close>

definition refused_names :: "string list" where
  "refused_names = [''__class__'', ''__dict__'', ''__weakref__'']"

definition special_names :: "string list" where
  "special_names = ''self'' # refused_names @ [''__kind__'', ''__required__'', ''__optional__'',
                    ''to_dict'']"

definition plain_class :: "kind_desc \<Rightarrow> bool" where
  "plain_class c \<longleftrightarrow>
     (\<forall>k \<in> set (required c @ optional c). k \<notin> set special_names)
     \<and> (is_async c \<longrightarrow> ''loop'' \<notin> set (required c @ optional c))"

text \<open>
  The registry is a dictionary (its keys are distinct), every class is stored under its
  own tag, as \<open>subclasses[cls.__kind__] = cls\<close> does, and every class is ordinary.
\<close>

definition wf_registry :: "registry \<Rightarrow> bool" where
  "wf_registry reg \<longleftrightarrow>
     distinct (keys reg) \<and> (\<forall>(t, c) \<in> set reg. kind c = t \<and> plain_class c)"

text \<open>
  A valid job: its class is ordinary, is registered under its tag and has no field
  called \<open>kind\<close>; the job has no attribute that hides \<open>__kind__\<close>, \<open>__required__\<close>,
  \<open>__optional__\<close> or \<open>to_dict\<close>; every required field holds a value other than \<open>None\<close>,
  and every optional field holds a value or \<open>None\<close>.
\<close>

definition valid_job :: "registry \<Rightarrow> job \<Rightarrow> bool" where
  "valid_job reg j \<longleftrightarrow>
     dict_get reg (kind (jcls j)) = Some (jcls j)
     \<and> plain_class (jcls j)
     \<and> ''kind'' \<notin> set (required (jcls j) @ optional (jcls j))
     \<and> (\<forall>n \<in> set [''__kind__'', ''__required__'', ''__optional__'', ''to_dict''].
           n \<notin> set (keys (attrs j)))
     \<and> (\<forall>k \<in> set (required (jcls j)). \<exists>v. dict_get (attrs j) k = Some (Data v) \<and> v \<noteq> PNone)
     \<and> (\<forall>k \<in> set (optional (jcls j)). \<exists>v. dict_get (attrs j) k = Some (Data v))"

text \<open>An association list in which a key has one value only.\<close>

definition functional :: "'v dict \<Rightarrow> bool" where
  "functional xs \<longleftrightarrow> (\<forall>k v v'. (k, v) \<in> set xs \<longrightarrow> (k, v') \<in> set xs \<longrightarrow> v = v')"

subsection \<open>The matching rule in the words of the specification\<close>

text \<open>
  A kind matches a record when its required-field set is a subset of the record's keys
  and its declared field set (required and optional) is a superset of the record's keys.
\<close>

definition matches_spec :: "kind_desc \<Rightarrow> pyval dict \<Rightarrow> bool" where
  "matches_spec c data \<longleftrightarrow>
     set (required c) \<subseteq> set (keys data) \<and> set (keys data) \<subseteq> set (required c) \<union> set (optional c)"

subsection \<open>The classes of the source\<close>

text \<open>
  Modelled from the spec: the metaclass \<open>TrackSubClasses\<close> of \<open>urlwatch/util.py\<close>, which
  fills \<open>JobBase.__subclasses__\<close> as the classes are declared, is not among the sources.
  The registry is therefore a parameter of every operation that reads it. The table below
  is the one of the three kinds of \<open>jobs.py\<close> (command execution, HTTP fetch, browser
  rendering): each kind with the tuples its class declares, followed by those of the
  classes it extends (\<open>Job\<close> declares the optional fields \<open>name\<close>, \<open>filter\<close>,
  \<open>max_tries\<close>, \<open>diff_tool\<close>). It is used where a concrete registry is needed.
\<close>

definition Job_optional :: "string list" where
  "Job_optional = [''name'', ''filter'', ''max_tries'', ''diff_tool'']"

definition ShellJob :: kind_desc where
  "ShellJob = \<lparr>kind = ''shell'', required = [''command''], optional = [] @ Job_optional,
     base = ShellBase, doc = Some ''Run a shell command and get its standard output'',
     module = ''urlwatch.jobs''\<rparr>"

definition UrlJob :: kind_desc where
  "UrlJob = \<lparr>kind = ''url'', required = [''url''],
     optional = [''cookies'', ''data'', ''method'', ''ssl_no_verify'', ''ignore_cached'',
                 ''http_proxy'', ''https_proxy'', ''headers'', ''ignore_connection_errors'']
                @ Job_optional,
     base = UrlBase, doc = Some ''Retrieve an URL from a web server'',
     module = ''urlwatch.jobs''\<rparr>"

definition BrowserJob :: kind_desc where
  "BrowserJob = \<lparr>kind = ''browser'', required = [''navigate''], optional = [] @ Job_optional,
     base = BrowserBase, doc = Some ''Retrieve an URL, emulating a real web browser'',
     module = ''urlwatch.jobs''\<rparr>"

definition subclasses :: registry where
  "subclasses = [(''shell'', ShellJob), (''url'', UrlJob), (''browser'', BrowserJob)]"

subsection \<open>An example job\<close>

text \<open>The job \<open>ShellJob(command='ls', name='list')\<close>.\<close>

definition example_job :: job where
  "example_job = \<lparr>jcls = ShellJob,
        attrs = [(''filter'', Data PNone), (''max_tries'', Data PNone), (''diff_tool'', Data PNone),
                 (''command'', Data (PStr ''ls'')), (''name'', Data (PStr ''list''))]\<rparr>"

section \<open>The HTTP job\<close>

subsection \<open>Custom headers (\<open>UrlJob.add_custom_headers\<close>)\<close>









text \<open>
  The job \<open>UrlJob(url='http://example.org/', headers={'content-type': 'text/plain'})\<close>.
\<close>

definition example_url_job :: job where
  "example_url_job = \<lparr>jcls = UrlJob,
     attrs = [(''cookies'', Data PNone), (''data'', Data PNone), (''method'', Data PNone),
              (''ssl_no_verify'', Data PNone), (''ignore_cached'', Data PNone),
              (''http_proxy'', Data PNone), (''https_proxy'', Data PNone),
              (''ignore_connection_errors'', Data PNone), (''name'', Data PNone),
              (''filter'', Data PNone), (''max_tries'', Data PNone), (''diff_tool'', Data PNone),
              (''url'', Data (PStr ''http://example.org/'')),
              (''headers'', Data (PDict [(''content-type'', ''text/plain'')]))]\<rparr>"

section \<open>Dictionaries\<close>

lemma map_of_overwrite:
  "map_of (map (\<lambda>(k', v'). if k' = k then (k', v) else (k', v')) d) k' =
     (if k' = k then (if k \<in> fst ` set d then Some v else None) else map_of d k')"
  by (induction d) (force split: prod.splits)+

lemma dict_get_set: "dict_get (dict_set d k v) k' = (if k' = k then Some v else dict_get d k')"
proof (cases "k \<in> set (keys d)")
  case True
  then show ?thesis
    by (simp add: dict_get_def dict_set_def keys_def map_of_overwrite)
next
  case False
  then have "map_of d k = None" by (simp add: keys_def map_of_eq_None_iff)
  with False show ?thesis
    by (simp add: dict_get_def dict_set_def map_add_def split: option.splits)
qed

lemma keys_overwrite:
  "map fst (map (\<lambda>(k', v'). if k' = k then (k', v) else (k', v')) d) = map fst d"
  by (induction d) (auto split: prod.splits)

lemma keys_dict_set:
  "keys (dict_set d k v) = (if k \<in> set (keys d) then keys d else keys d @ [k])"
  by (simp add: dict_set_def keys_def keys_overwrite del: map_map)


lemma keys_Nil: "keys [] = []"
  by (simp add: keys_def)

lemma keys_Cons: "keys ((k, v) # d) = k # keys d"
  by (simp add: keys_def)

lemma dict_get_None_iff: "dict_get d k = None \<longleftrightarrow> k \<notin> set (keys d)"
  by (simp add: dict_get_def keys_def map_of_eq_None_iff)

lemma dict_get_Some_keys: "dict_get d k = Some v \<Longrightarrow> k \<in> set (keys d)"
  using dict_get_None_iff [of d k] by auto

lemma set_keys_set_all: "set (keys (set_all kvs a)) = set (keys a) \<union> set (keys kvs)"
  by (induction kvs a rule: set_all.induct) (auto simp: keys_dict_set, auto simp: keys_def)

lemma set_keys_dict_of: "set (keys (dict_of kvs)) = set (keys kvs)"
  by (simp add: dict_of_def set_keys_set_all, simp add: keys_def)

lemma keys_filter_declared:
  "set (keys (filter (\<lambda>(k, v). P k) data)) = {k \<in> set (keys data). P k}"
  by (induction data) (auto simp: keys_def)

lemma set_keys_dict_pop: "set (keys (dict_pop d k)) = set (keys d) - {k}"
  by (induction d) (auto simp: dict_pop_def keys_def)

lemma dict_get_set_all:
  "dict_get (set_all kvs a) k = (case map_of (rev kvs) k of None \<Rightarrow> dict_get a k | Some v \<Rightarrow> Some v)"
  by (induction kvs a rule: set_all.induct)
     (simp_all add: dict_get_set map_add_def split: option.splits)

lemma map_of_functional:
  assumes "functional xs"
  shows "map_of xs k = Some v \<longleftrightarrow> (k, v) \<in> set xs"
proof
  assume "map_of xs k = Some v" then show "(k, v) \<in> set xs" by (rule map_of_SomeD)
next
  assume m: "(k, v) \<in> set xs"
  then obtain v' where v': "map_of xs k = Some v'" by (auto dest: weak_map_of_SomeI)
  then have "(k, v') \<in> set xs" by (rule map_of_SomeD)
  with m assms have "v = v'" unfolding functional_def by blast
  with v' show "map_of xs k = Some v" by simp
qed

lemma functional_rev: "functional (rev xs) = functional xs"
  by (simp add: functional_def)

lemma map_of_rev_functional: "functional xs \<Longrightarrow> map_of (rev xs) k = map_of xs k"
proof (cases "map_of xs k")
  case None
  then have "map_of (rev xs) k = None" by (simp add: map_of_eq_None_iff)
  with None show ?thesis by simp
next
  case (Some v)
  assume f: "functional xs"
  with Some have "(k, v) \<in> set (rev xs)" by (simp add: map_of_functional)
  then have "map_of (rev xs) k = Some v"
    using f by (simp only: map_of_functional [OF f [folded functional_rev [of xs]]])
  with Some show ?thesis by simp
qed

lemma functional_distinct: "distinct (keys xs) \<Longrightarrow> functional xs"
  unfolding functional_def keys_def by (metis map_of_is_SomeI option.inject)

lemma distinct_keys_set_all: "distinct (keys a) \<Longrightarrow> distinct (keys (set_all kvs a))"
  by (induction kvs a rule: set_all.induct) (simp_all add: keys_dict_set)

lemma distinct_keys_dict_of: "distinct (keys (dict_of kvs))"
  by (simp add: dict_of_def distinct_keys_set_all keys_Nil)

lemma dict_get_dict_of_functional:
  "functional kvs \<Longrightarrow> dict_get (dict_of kvs) k = map_of kvs k"
  by (simp add: dict_of_def dict_get_set_all map_of_rev_functional split: option.splits)
     (simp add: dict_get_def)

lemma map_of_filter_keys:
  "map_of (filter (\<lambda>(k, v). P k) d) k = (if P k then map_of d k else None)"
  by (induction d) auto

lemma distinct_keys_filter: "distinct (keys d) \<Longrightarrow> distinct (keys (filter P d))"
  by (simp add: keys_def distinct_map_filter)



section \<open>Construction\<close>

lemma py_setattr_plain:
  "n \<notin> set refused_names \<Longrightarrow> py_setattr j n v = Inr (j\<lparr>attrs := dict_set (attrs j) n v\<rparr>)"
  by (simp add: py_setattr_def refused_names_def)





text \<open>The instance dictionary after the first loop of \<open>__init__\<close>.\<close>

lemma set_optional_plain:
  "\<forall>k \<in> set ks. k \<notin> set refused_names \<Longrightarrow>
   \<exists>a. set_optional ks kw j = Inr (j\<lparr>attrs := a\<rparr>)
     \<and> (\<forall>k. dict_get a k = (if k \<in> set ks \<and> k \<notin> set (keys kw) then Some (Data PNone)
                            else dict_get (attrs j) k))
     \<and> set (keys a) = set (keys (attrs j)) \<union> {k \<in> set ks. k \<notin> set (keys kw)}"
proof (induction ks arbitrary: j)
  case Nil
  show ?case by (rule exI [of _ "attrs j"]) simp
next
  case (Cons k ks)
  show ?case
  proof (cases "k \<in> set (keys kw)")
    case True
    from Cons.IH [of j] Cons.prems obtain a where
      a: "set_optional ks kw j = Inr (j\<lparr>attrs := a\<rparr>)"
        "\<forall>k. dict_get a k = (if k \<in> set ks \<and> k \<notin> set (keys kw) then Some (Data PNone)
                            else dict_get (attrs j) k)"
        "set (keys a) = set (keys (attrs j)) \<union> {k \<in> set ks. k \<notin> set (keys kw)}"
      by auto
    show ?thesis
      using True a by (intro exI [of _ a]) auto
  next
    case False
    let ?j = "j\<lparr>attrs := dict_set (attrs j) k (Data PNone)\<rparr>"
    have s: "py_setattr j k (Data PNone) = Inr ?j"
      using Cons.prems by (simp add: py_setattr_plain)
    from Cons.IH [of ?j] Cons.prems obtain a where
      a: "set_optional ks kw ?j = Inr (?j\<lparr>attrs := a\<rparr>)"
        "\<forall>k'. dict_get a k' = (if k' \<in> set ks \<and> k' \<notin> set (keys kw) then Some (Data PNone)
                            else dict_get (attrs ?j) k')"
        "set (keys a) = set (keys (attrs ?j)) \<union> {k \<in> set ks. k \<notin> set (keys kw)}"
      by auto
    have 1: "set_optional (k # ks) kw j = Inr (j\<lparr>attrs := a\<rparr>)"
      using False s a(1) by simp
    have 2: "\<forall>k'. dict_get a k' = (if k' \<in> set (k # ks) \<and> k' \<notin> set (keys kw) then Some (Data PNone)
                            else dict_get (attrs j) k')"
      using a(2) False by (auto simp: dict_get_set)
    have 3: "set (keys a) = set (keys (attrs j)) \<union> {k' \<in> set (k # ks). k' \<notin> set (keys kw)}"
      using a(3) False by (auto simp: keys_dict_set)
    from 1 2 3 show ?thesis by blast
  qed
qed

lemma set_attrs_plain:
  "\<forall>k \<in> set (keys kw). k \<notin> set refused_names \<Longrightarrow>
   set_attrs kw j = Inr (j\<lparr>attrs := set_all (map (\<lambda>(k, v). (k, Data v)) kw) (attrs j)\<rparr>)"
  by (induction kw j rule: set_attrs.induct) (simp_all add: py_setattr_plain keys_Cons)


lemma check_required_ok:
  "set ks \<subseteq> set (keys kw) \<Longrightarrow> check_required ks kw = Inr ()"
  by (induction ks) simp_all

lemma check_required_iff: "check_required ks kw = Inr () \<longleftrightarrow> set ks \<subseteq> set (keys kw)"
  by (induction ks) simp_all

lemma check_required_fail:
  "filter (\<lambda>k. k \<notin> set (keys kw)) ks = m # ms \<Longrightarrow>
   check_required ks kw = Inl (ValueError (''Required field '' @ m @ '' missing: '' @ repr_dict kw))"
  by (induction ks) (simp_all split: if_splits)

lemma plain_class_names:
  assumes "plain_class c" and "k \<in> set (required c) \<or> k \<in> set (optional c)"
  shows "k \<notin> set refused_names" and "k \<noteq> ''self''" and "k \<noteq> ''__required__''"
    and "k \<noteq> ''__optional__''" and "k \<noteq> ''__kind__''" and "k \<noteq> ''to_dict''"
  using assms by (auto simp: plain_class_def special_names_def)

text \<open>
  \<open>JobBase.__init__\<close> on a new object of an ordinary class: up to the check of the
  required fields.
\<close>

lemma JobBase_init_plain:
  assumes p: "plain_class c"
  shows "\<exists>a. JobBase_init \<lparr>jcls = c, attrs = []\<rparr> kw =
      (case check_required (required c) kw of
         Inl e \<Rightarrow> Inl e
       | Inr _ \<Rightarrow> set_attrs kw \<lparr>jcls = c, attrs = a\<rparr>)
    \<and> (\<forall>k. dict_get a k = (if k \<in> set (optional c) \<and> k \<notin> set (keys kw) then Some (Data PNone)
                            else None))
    \<and> set (keys a) = {k \<in> set (optional c). k \<notin> set (keys kw)}"
proof -
  let ?self = "\<lparr>jcls = c, attrs = []\<rparr>"
  have o: "optional_of ?self = Inr (optional c)"
    by (simp add: optional_of_def dict_get_def)
  have "\<forall>k \<in> set (optional c). k \<notin> set refused_names"
    using plain_class_names(1) [OF p] by blast
  from set_optional_plain [OF this, of kw ?self] obtain a where
    a: "set_optional (optional c) kw ?self = Inr \<lparr>jcls = c, attrs = a\<rparr>"
      "\<forall>k. dict_get a k = (if k \<in> set (optional c) \<and> k \<notin> set (keys kw) then Some (Data PNone)
                            else None)"
      "set (keys a) = {k \<in> set (optional c). k \<notin> set (keys kw)}"
    by (auto simp: dict_get_def keys_Nil)
  have "''__required__'' \<notin> set (keys a)"
    using a(3) plain_class_names(3) [OF p] by auto
  then have r: "required_of \<lparr>jcls = c, attrs = a\<rparr> = Inr (required c)"
    by (simp add: required_of_def dict_get_None_iff [symmetric])
  have "JobBase_init ?self kw =
      (case check_required (required c) kw of
         Inl e \<Rightarrow> Inl e
       | Inr _ \<Rightarrow> set_attrs kw \<lparr>jcls = c, attrs = a\<rparr>)"
    by (simp add: JobBase_init_def o a(1) r)
  with a(2,3) show ?thesis by blast
qed

lemma new_job_missing:
  assumes "plain_class c" and "''self'' \<notin> set (keys kw)"
    and "filter (\<lambda>k. k \<notin> set (keys kw)) (required c) = m # ms"
  shows "new_job c kw = Inl (ValueError (''Required field '' @ m @ '' missing: '' @ repr_dict kw))"
proof -
  from JobBase_init_plain [OF assms(1), of kw] check_required_fail [OF assms(3)]
  have "JobBase_init \<lparr>jcls = c, attrs = []\<rparr> kw
      = Inl (ValueError (''Required field '' @ m @ '' missing: '' @ repr_dict kw))"
    by auto
  then show ?thesis using assms(2) by (simp add: new_job_def AsyncJob_init_def)
qed

lemma map_of_map_values:
  "map_of (map (\<lambda>(k, v). (k, f v)) xs) k = map_option f (map_of xs k)"
  by (induction xs) auto

lemma map_of_rev_Data:
  "map_of (rev (map (\<lambda>(k, v). (k, Data v)) kw)) k = map_option Data (map_of (rev kw) k)"
  by (simp add: rev_map map_of_map_values)

lemma keys_map_Data: "keys (map (\<lambda>(k, v). (k, Data v)) kw) = keys kw"
  by (induction kw) (auto simp: keys_def)

lemma new_job_ok:
  assumes p: "plain_class c" and s: "''self'' \<notin> set (keys kw)"
    and r: "set (required c) \<subseteq> set (keys kw)"
    and k: "\<forall>k \<in> set (keys kw). k \<notin> set refused_names"
  shows "\<exists>j. new_job c kw = Inr j \<and> jcls j = c
    \<and> (\<forall>k. dict_get (attrs j) k =
          (if k = ''loop'' \<and> is_async c then Some (Data PNone)
           else case map_of (rev kw) k of
                  Some v \<Rightarrow> Some (Data v)
                | None \<Rightarrow> if k \<in> set (optional c) \<and> k \<notin> set (keys kw) then Some (Data PNone)
                          else None))
    \<and> set (keys (attrs j)) =
        set (keys kw) \<union> set (optional c) \<union> (if is_async c then {''loop''} else {})"
proof -
  from JobBase_init_plain [OF p, of kw] obtain a where
    a: "JobBase_init \<lparr>jcls = c, attrs = []\<rparr> kw =
      (case check_required (required c) kw of
         Inl e \<Rightarrow> Inl e
       | Inr _ \<Rightarrow> set_attrs kw \<lparr>jcls = c, attrs = a\<rparr>)"
      "\<forall>k. dict_get a k = (if k \<in> set (optional c) \<and> k \<notin> set (keys kw) then Some (Data PNone)
                            else None)"
      "set (keys a) = {k \<in> set (optional c). k \<notin> set (keys kw)}"
    by blast
  let ?b = "set_all (map (\<lambda>(k, v). (k, Data v)) kw) a"
  have i: "JobBase_init \<lparr>jcls = c, attrs = []\<rparr> kw = Inr \<lparr>jcls = c, attrs = ?b\<rparr>"
    using a(1) set_attrs_plain [OF k, of "\<lparr>jcls = c, attrs = a\<rparr>"]
    by (simp add: check_required_ok [OF r])
  have b: "dict_get ?b k = (case map_of (rev kw) k of
                  Some v \<Rightarrow> Some (Data v)
                | None \<Rightarrow> if k \<in> set (optional c) \<and> k \<notin> set (keys kw) then Some (Data PNone)
                          else None)" for k
    by (simp add: dict_get_set_all map_of_rev_Data a(2) split: option.splits)
  have kb: "set (keys ?b) = set (keys kw) \<union> set (optional c)"
    using a(3) by (auto simp: set_keys_set_all keys_map_Data)
  show ?thesis
  proof (cases "is_async c")
    case False
    then have "new_job c kw = Inr \<lparr>jcls = c, attrs = ?b\<rparr>"
      using s i by (simp add: new_job_def)
    then show ?thesis using False b kb by auto
  next
    case True
    let ?j = "\<lparr>jcls = c, attrs = dict_set ?b ''loop'' (Data PNone)\<rparr>"
    have "py_setattr \<lparr>jcls = c, attrs = ?b\<rparr> ''loop'' (Data PNone) = Inr ?j"
      by (simp add: py_setattr_plain refused_names_def)
    then have n: "new_job c kw = Inr ?j"
      using True s i by (simp add: new_job_def AsyncJob_init_def)
    have g: "\<forall>k. dict_get (attrs ?j) k =
          (if k = ''loop'' \<and> is_async c then Some (Data PNone)
           else case map_of (rev kw) k of
                  Some v \<Rightarrow> Some (Data v)
                | None \<Rightarrow> if k \<in> set (optional c) \<and> k \<notin> set (keys kw) then Some (Data PNone)
                          else None)"
      using True by (simp add: dict_get_set b)
    have ks: "set (keys (attrs ?j)) =
        set (keys kw) \<union> set (optional c) \<union> (if is_async c then {''loop''} else {})"
      using True kb by (auto simp: keys_dict_set)
    from n g ks show ?thesis by (intro exI [of _ ?j]) simp
  qed
qed

text \<open>
  C3, as the code has it, for an ordinary class and a field map without the key
  \<open>self\<close>. When the map omits required fields, \<open>m\<close> being the first of them in the
  order of \<open>__required__\<close>, construction raises the \<open>ValueError\<close> whose message is
  \<open>Required field m missing:\<close> followed by the field map. When every required field is
  present and no key is one that \<open>setattr\<close> refuses, construction succeeds and every
  optional field absent from the map is set to \<open>None\<close>.
\<close>

theorem init_required_fields:
  "plain_class c \<Longrightarrow> ''self'' \<notin> set (keys kw) \<Longrightarrow>
   (filter (\<lambda>k. k \<notin> set (keys kw)) (required c) = m # ms \<longrightarrow>
      new_job c kw = Inl (ValueError (''Required field '' @ m @ '' missing: '' @ repr_dict kw)))
   \<and> (set (required c) \<subseteq> set (keys kw) \<longrightarrow>
      (\<forall>k \<in> set (keys kw). k \<notin> set refused_names) \<longrightarrow>
      (\<exists>j. new_job c kw = Inr j \<and> jcls j = c
          \<and> (\<forall>k \<in> set (optional c). k \<notin> set (keys kw) \<longrightarrow>
                dict_get (attrs j) k = Some (Data PNone))))"
proof (intro conjI impI)
  assume "plain_class c" "''self'' \<notin> set (keys kw)"
    "filter (\<lambda>k. k \<notin> set (keys kw)) (required c) = m # ms"
  then show "new_job c kw = Inl (ValueError (''Required field '' @ m @ '' missing: '' @ repr_dict kw))"
    by (rule new_job_missing)
next
  assume p: "plain_class c" and s: "''self'' \<notin> set (keys kw)"
    and r: "set (required c) \<subseteq> set (keys kw)"
    and k: "\<forall>k \<in> set (keys kw). k \<notin> set refused_names"
  from new_job_ok [OF p s r k] obtain j where
    j: "new_job c kw = Inr j" "jcls j = c"
      "\<forall>k. dict_get (attrs j) k =
          (if k = ''loop'' \<and> is_async c then Some (Data PNone)
           else case map_of (rev kw) k of
                  Some v \<Rightarrow> Some (Data v)
                | None \<Rightarrow> if k \<in> set (optional c) \<and> k \<notin> set (keys kw) then Some (Data PNone)
                          else None)"
    by blast
  have "dict_get (attrs j) k = Some (Data PNone)"
    if "k \<in> set (optional c)" "k \<notin> set (keys kw)" for k
  proof -
    have "map_of (rev kw) k = None"
      using that(2) by (simp add: map_of_eq_None_iff keys_def)
    with that j(3) show ?thesis by simp
  qed
  with j(1,2) show "\<exists>j. new_job c kw = Inr j \<and> jcls j = c
          \<and> (\<forall>k \<in> set (optional c). k \<notin> set (keys kw) \<longrightarrow>
                dict_get (attrs j) k = Some (Data PNone))"
    by blast
qed

lemma plain_ShellJob: "plain_class ShellJob"
  by (simp add: plain_class_def ShellJob_def Job_optional_def special_names_def refused_names_def
      is_async_def)

lemma plain_UrlJob: "plain_class UrlJob"
  by (simp add: plain_class_def UrlJob_def Job_optional_def special_names_def refused_names_def
      is_async_def)

lemma plain_BrowserJob: "plain_class BrowserJob"
  by (simp add: plain_class_def BrowserJob_def Job_optional_def special_names_def
      refused_names_def is_async_def)

theorem init_required_fields_witness:
  "new_job UrlJob [(''name'', PStr ''x'')]
     = Inl (ValueError (''Required field url missing: {'' @ [CHR 0x27] @ ''name'' @ [CHR 0x27]
            @ '': '' @ [CHR 0x27] @ ''x'' @ [CHR 0x27] @ ''}''))
   \<and> (\<exists>j. new_job ShellJob [(''command'', PStr ''ls'')] = Inr j \<and> jcls j = ShellJob
          \<and> dict_get (attrs j) ''name'' = Some (Data PNone))"
proof -
  have a: "filter (\<lambda>k. k \<notin> set (keys [(''name'', PStr ''x'')])) (required UrlJob) = ''url'' # []"
    by (simp add: UrlJob_def keys_def)
  have s: "''self'' \<notin> set (keys [(''name'', PStr ''x'')])"
      "''self'' \<notin> set (keys [(''command'', PStr ''ls'')])"
    by (simp_all add: keys_def)
  have b: "set (required ShellJob) \<subseteq> set (keys [(''command'', PStr ''ls'')])"
    by (simp add: ShellJob_def keys_def)
  have k: "\<forall>k \<in> set (keys [(''command'', PStr ''ls'')]). k \<notin> set refused_names"
    by (simp add: keys_def refused_names_def)
  have r: "repr_dict [(''name'', PStr ''x'')]
      = ''{'' @ [CHR 0x27] @ ''name'' @ [CHR 0x27] @ '': '' @ [CHR 0x27] @ ''x'' @ [CHR 0x27] @ ''}''"
    by (simp add: repr_dict_def repr_str_def repr_char_def printable_def Let_def)
  have 1: "new_job UrlJob [(''name'', PStr ''x'')]
     = Inl (ValueError (''Required field url missing: '' @ repr_dict [(''name'', PStr ''x'')]))"
    using init_required_fields [OF plain_UrlJob s(1), where m = "''url''" and ms = "[]"] a
    by simp
  obtain j where j: "new_job ShellJob [(''command'', PStr ''ls'')] = Inr j" "jcls j = ShellJob"
      "\<forall>k \<in> set (optional ShellJob). k \<notin> set (keys [(''command'', PStr ''ls'')])
          \<longrightarrow> dict_get (attrs j) k = Some (Data PNone)"
    using init_required_fields [OF plain_ShellJob s(2)] b k by blast
  have 2: "dict_get (attrs j) ''name'' = Some (Data PNone)"
    using j(3) by (simp add: ShellJob_def Job_optional_def keys_def)
  show ?thesis using 1 j(1,2) 2 by (simp add: r)
qed

text \<open>
  C3, as the claim states it, fails. A command-execution job built from the empty field
  map raises \<open>ValueError('Required field command missing: {}')\<close>, and the tag \<open>shell\<close>
  of the kind does not occur in that message. A field map with the key \<open>self\<close> raises
  \<open>TypeError\<close>, whether or not a required field is missing, and so does a map with all
  required fields and the key \<open>__class__\<close>.
\<close>

theorem init_error_counterexample:
  "new_job ShellJob [] = Inl (ValueError ''Required field command missing: {}'')
   \<and> \<not> sublist (kind ShellJob) ''Required field command missing: {}''
   \<and> new_job ShellJob [(''self'', PStr ''x'')] = Inl TypeError
   \<and> new_job ShellJob [(''command'', PStr ''ls''), (''__class__'', PStr ''x'')] = Inl TypeError"
  by (simp add: new_job_def JobBase_init_def ShellJob_def Job_optional_def repr_dict_def
      keys_def sublist_code is_async_def optional_of_def required_of_def dict_get_def
      py_setattr_def dict_set_def)

section \<open>Resolving the kind of a record\<close>

lemma matches_iff_spec: "matches c data = matches_spec c data"
  by (auto simp: matches_def matches_spec_def)

lemma detect_kinds_spec:
  "detect_kinds reg data = map kind (filter (\<lambda>c. matches_spec c data) (map snd reg))"
  by (simp add: detect_kinds_def matches_iff_spec)

lemma registry_lookup:
  "wf_registry reg \<Longrightarrow> c \<in> set (map snd reg) \<Longrightarrow> dict_get reg (kind c) = Some c"
  by (auto simp: wf_registry_def dict_get_def keys_def)

lemma registry_plain: "wf_registry reg \<Longrightarrow> c \<in> set (map snd reg) \<Longrightarrow> plain_class c"
  by (auto simp: wf_registry_def)

text \<open>The keyword arguments that \<open>from_dict\<close> passes on.\<close>

lemma from_dict_keys:
  "set (keys (dict_of (filter (\<lambda>(k, v). k \<in> set (required c) \<or> k \<in> set (optional c)) data)))
     = {k \<in> set (keys data). k \<in> set (required c) \<or> k \<in> set (optional c)}"
  by (simp add: set_keys_dict_of keys_filter_declared)

lemma from_dict_ok:
  assumes p: "plain_class c" and r: "set (required c) \<subseteq> set (keys data)"
  shows "\<exists>j. from_dict c data = Inr j \<and> jcls j = c"
proof -
  let ?kw = "dict_of (filter (\<lambda>(k, v). k \<in> set (required c) \<or> k \<in> set (optional c)) data)"
  have 1: "''self'' \<notin> set (keys ?kw)"
    unfolding from_dict_keys using plain_class_names(2) [OF p] by auto
  have 2: "set (required c) \<subseteq> set (keys ?kw)"
    unfolding from_dict_keys using r by auto
  have 3: "\<forall>k \<in> set (keys ?kw). k \<notin> set refused_names"
    unfolding from_dict_keys using plain_class_names(1) [OF p] by auto
  from new_job_ok [OF p 1 2 3] show ?thesis by (auto simp: from_dict_def)
qed

lemma repr_char_plain: "plain_char c \<Longrightarrow> repr_char (CHR 0x27) c = [c]"
  by (auto simp: repr_char_def plain_char_def printable_def)

lemma repr_str_plain:
  assumes "\<forall>c \<in> set s. plain_char c"
  shows "repr_str s = [CHR 0x27] @ s @ [CHR 0x27]"
proof -
  have q: "CHR 0x27 \<notin> set s" using assms by (auto simp: plain_char_def)
  have "concat (map (repr_char (CHR 0x27)) s) = s"
    using assms by (induction s) (simp_all add: repr_char_plain)
  with q show ?thesis by (simp add: repr_str_def Let_def)
qed

lemma sublist_left: "sublist x m \<Longrightarrow> sublist x (p @ m)"
  by (simp add: sublist_append)

lemma sublist_right: "sublist x m \<Longrightarrow> sublist x (m @ q)"
  by (simp add: sublist_append)

lemma sublist_join: "x \<in> set xs \<Longrightarrow> sublist x (join sep xs)"
proof (induction sep xs rule: join.induct)
  case (1 sep)
  then show ?case by simp
next
  case (2 sep y)
  then show ?case by simp
next
  case (3 sep y z zs)
  show ?case
  proof (cases "x = y")
    case True
    then show ?thesis by simp
  next
    case False
    with 3 have "sublist x (join sep (z # zs))" by simp
    then have "sublist x ((y @ sep) @ join sep (z # zs))" by (rule sublist_left)
    then show ?thesis by simp
  qed
qed

text \<open>
  C2. For a record without a \<open>kind\<close> entry and a well-formed registry, the tags
  collected are exactly those of the registered kinds whose required fields are all keys
  of the record and whose required and optional fields cover the keys of the record.
  When exactly one kind matches, the record is handed to that kind, which builds a job
  of it; when none matches, \<open>unserialize\<close> raises the \<open>ValueError\<close> of no match; when
  two or more match, it raises the \<open>ValueError\<close> of multiple matches, whose message
  ends with the list of the matching tags, each as \<open>repr\<close> prints it, so that every
  matching tag made of ordinary characters stands in it between single quotes.
\<close>

theorem unserialize_autodetect:
  "wf_registry reg \<Longrightarrow> ''kind'' \<notin> set (keys data) \<Longrightarrow>
   detect_kinds reg data = map kind (filter (\<lambda>c. matches_spec c data) (map snd reg))
   \<and> (\<forall>c. filter (\<lambda>c. matches_spec c data) (map snd reg) = [c] \<longrightarrow>
         (\<exists>j. unserialize reg data = Inr j \<and> from_dict c data = Inr j \<and> jcls j = c))
   \<and> (filter (\<lambda>c. matches_spec c data) (map snd reg) = [] \<longrightarrow>
         unserialize reg data
           = Inl (ValueError (''Kind is not specified, and no job matches: '' @ repr_dict data)))
   \<and> (2 \<le> length (filter (\<lambda>c. matches_spec c data) (map snd reg)) \<longrightarrow>
         (\<exists>msg. unserialize reg data = Inl (ValueError msg)
            \<and> msg = ''Multiple kinds of jobs match '' @ repr_dict data @ '': ['' @
                join '', '' (map (\<lambda>c. repr_str (kind c))
                                (filter (\<lambda>c. matches_spec c data) (map snd reg))) @ '']''
            \<and> (\<forall>c \<in> set (filter (\<lambda>c. matches_spec c data) (map snd reg)).
                  (\<forall>ch \<in> set (kind c). plain_char ch) \<longrightarrow>
                  sublist ([CHR 0x27] @ kind c @ [CHR 0x27]) msg)))"
proof (intro conjI allI impI)
  show "detect_kinds reg data = map kind (filter (\<lambda>c. matches_spec c data) (map snd reg))"
    by (rule detect_kinds_spec)
next
  fix c
  assume wf: "wf_registry reg" and nk: "''kind'' \<notin> set (keys data)"
    and one: "filter (\<lambda>c. matches_spec c data) (map snd reg) = [c]"
  have "c \<in> set (filter (\<lambda>c. matches_spec c data) (map snd reg))" by (simp add: one)
  then have c: "c \<in> set (map snd reg)" and m: "matches_spec c data" by simp_all
  have k: "unserialize_kind reg data = Inr (PStr (kind c))"
    using nk by (simp add: unserialize_kind_def detect_kinds_spec one)
  have l: "subclass_lookup reg (PStr (kind c)) = Inr c"
    by (simp add: subclass_lookup_def registry_lookup [OF wf c])
  obtain j where j: "from_dict c data = Inr j" "jcls j = c"
    using from_dict_ok [OF registry_plain [OF wf c], of data] m by (auto simp: matches_spec_def)
  show "\<exists>j. unserialize reg data = Inr j \<and> from_dict c data = Inr j \<and> jcls j = c"
    using j by (simp add: unserialize_def k l)
next
  assume nk: "''kind'' \<notin> set (keys data)"
    and "filter (\<lambda>c. matches_spec c data) (map snd reg) = []"
  then show "unserialize reg data
           = Inl (ValueError (''Kind is not specified, and no job matches: '' @ repr_dict data))"
    by (simp add: unserialize_def unserialize_kind_def detect_kinds_spec)
next
  let ?F = "filter (\<lambda>c. matches_spec c data) (map snd reg)"
  let ?list = "join '', '' (map (\<lambda>c. repr_str (kind c)) ?F)"
  let ?msg = "''Multiple kinds of jobs match '' @ repr_dict data @ '': ['' @ ?list @ '']''"
  assume nk: "''kind'' \<notin> set (keys data)" and two: "2 \<le> length ?F"
  have u: "unserialize reg data = Inl (ValueError ?msg)"
    using nk two
    by (auto simp: unserialize_def unserialize_kind_def detect_kinds_spec Let_def repr_list_def
        comp_def)
  have s: "sublist ([CHR 0x27] @ kind c @ [CHR 0x27]) ?msg"
    if c: "c \<in> set ?F" and p: "\<forall>ch \<in> set (kind c). plain_char ch" for c
  proof -
    have "repr_str (kind c) \<in> set (map (\<lambda>c. repr_str (kind c)) ?F)"
      using c unfolding set_map by (rule imageI)
    then have "sublist (repr_str (kind c)) ?list" by (rule sublist_join)
    then have "sublist ([CHR 0x27] @ kind c @ [CHR 0x27]) ?list"
      by (simp only: repr_str_plain [OF p])
    then have "sublist ([CHR 0x27] @ kind c @ [CHR 0x27]) (?list @ '']'')"
      by (rule sublist_right)
    then have "sublist ([CHR 0x27] @ kind c @ [CHR 0x27])
        ((''Multiple kinds of jobs match '' @ repr_dict data @ '': ['') @ ?list @ '']'')"
      by (rule sublist_left)
    then show ?thesis by simp
  qed
  from u s show "\<exists>msg. unserialize reg data = Inl (ValueError msg)
            \<and> msg = ''Multiple kinds of jobs match '' @ repr_dict data @ '': ['' @
                join '', '' (map (\<lambda>c. repr_str (kind c)) ?F) @ '']''
            \<and> (\<forall>c \<in> set ?F. (\<forall>ch \<in> set (kind c). plain_char ch) \<longrightarrow>
                  sublist ([CHR 0x27] @ kind c @ [CHR 0x27]) msg)"
    by blast
qed

theorem unserialize_autodetect_witness:
  "(\<exists>j. unserialize subclasses [(''url'', PStr ''http://a''), (''name'', PStr ''n'')] = Inr j
        \<and> jcls j = UrlJob)
   \<and> unserialize subclasses [(''name'', PStr ''n'')]
       = Inl (ValueError (''Kind is not specified, and no job matches: {'' @ [CHR 0x27] @ ''name''
              @ [CHR 0x27] @ '': '' @ [CHR 0x27] @ ''n'' @ [CHR 0x27] @ ''}''))
   \<and> unserialize (subclasses @ [(''get'', UrlJob\<lparr>kind := ''get''\<rparr>)]) [(''url'', PStr ''http://a'')]
       = Inl (ValueError (''Multiple kinds of jobs match {'' @ [CHR 0x27] @ ''url'' @ [CHR 0x27]
              @ '': '' @ [CHR 0x27] @ ''http://a'' @ [CHR 0x27] @ ''}: ['' @ [CHR 0x27] @ ''url''
              @ [CHR 0x27] @ '', '' @ [CHR 0x27] @ ''get'' @ [CHR 0x27] @ '']''))
   \<and> sublist ([CHR 0x27] @ ''get'' @ [CHR 0x27])
        (''Multiple kinds of jobs match {'' @ [CHR 0x27] @ ''url'' @ [CHR 0x27]
              @ '': '' @ [CHR 0x27] @ ''http://a'' @ [CHR 0x27] @ ''}: ['' @ [CHR 0x27] @ ''url''
              @ [CHR 0x27] @ '', '' @ [CHR 0x27] @ ''get'' @ [CHR 0x27] @ '']'')"
proof -
  let ?d1 = "[(''url'', PStr ''http://a''), (''name'', PStr ''n'')]"
  let ?d2 = "[(''name'', PStr ''n'')]"
  let ?d3 = "[(''url'', PStr ''http://a'')]"
  let ?get = "UrlJob\<lparr>kind := ''get''\<rparr>"
  let ?reg = "subclasses @ [(''get'', ?get)]"
  have pg: "plain_class ?get"
    using plain_UrlJob by (simp add: plain_class_def is_async_def)
  have wf: "wf_registry subclasses" "wf_registry ?reg"
    using plain_ShellJob plain_UrlJob plain_BrowserJob pg
    by (simp_all add: wf_registry_def subclasses_def keys_def)
       (simp_all add: ShellJob_def UrlJob_def BrowserJob_def)
  have nk: "''kind'' \<notin> set (keys ?d1)" "''kind'' \<notin> set (keys ?d2)" "''kind'' \<notin> set (keys ?d3)"
    by (simp_all add: keys_def)
  have m1: "filter (\<lambda>c. matches_spec c ?d1) (map snd subclasses) = [UrlJob]"
    by (simp add: matches_spec_def subclasses_def ShellJob_def UrlJob_def BrowserJob_def
        Job_optional_def keys_def)
  have m2: "filter (\<lambda>c. matches_spec c ?d2) (map snd subclasses) = []"
    by (simp add: matches_spec_def subclasses_def ShellJob_def UrlJob_def BrowserJob_def
        Job_optional_def keys_def)
  have m3: "filter (\<lambda>c. matches_spec c ?d3) (map snd ?reg) = [UrlJob, ?get]"
    by (simp add: matches_spec_def subclasses_def ShellJob_def UrlJob_def BrowserJob_def
        Job_optional_def keys_def)
  have 1: "\<exists>j. unserialize subclasses ?d1 = Inr j \<and> jcls j = UrlJob"
    using unserialize_autodetect [OF wf(1) nk(1)] m1 by blast
  have "unserialize subclasses ?d2
       = Inl (ValueError (''Kind is not specified, and no job matches: '' @ repr_dict ?d2))"
    using unserialize_autodetect [OF wf(1) nk(2)] m2 by blast
  then have 2: "unserialize subclasses ?d2
       = Inl (ValueError (''Kind is not specified, and no job matches: {'' @ [CHR 0x27] @ ''name''
              @ [CHR 0x27] @ '': '' @ [CHR 0x27] @ ''n'' @ [CHR 0x27] @ ''}''))"
    by (simp add: repr_dict_def repr_str_def repr_char_def printable_def Let_def)
  have l3: "2 \<le> length (filter (\<lambda>c. matches_spec c ?d3) (map snd ?reg))"
    by (simp only: m3) simp
  from unserialize_autodetect [OF wf(2) nk(3)] l3 obtain msg where
    msg: "unserialize ?reg ?d3 = Inl (ValueError msg)"
      "msg = ''Multiple kinds of jobs match '' @ repr_dict ?d3 @ '': ['' @
                join '', '' (map (\<lambda>c. repr_str (kind c))
                                (filter (\<lambda>c. matches_spec c ?d3) (map snd ?reg))) @ '']''"
      "\<forall>c \<in> set (filter (\<lambda>c. matches_spec c ?d3) (map snd ?reg)).
                  (\<forall>ch \<in> set (kind c). plain_char ch) \<longrightarrow>
                  sublist ([CHR 0x27] @ kind c @ [CHR 0x27]) msg"
    by blast
  have t: "msg = ''Multiple kinds of jobs match {'' @ [CHR 0x27] @ ''url'' @ [CHR 0x27]
              @ '': '' @ [CHR 0x27] @ ''http://a'' @ [CHR 0x27] @ ''}: ['' @ [CHR 0x27] @ ''url''
              @ [CHR 0x27] @ '', '' @ [CHR 0x27] @ ''get'' @ [CHR 0x27] @ '']''"
    unfolding msg(2) m3
    by (simp add: repr_dict_def repr_str_def repr_char_def printable_def Let_def UrlJob_def)
  have "?get \<in> set (filter (\<lambda>c. matches_spec c ?d3) (map snd ?reg))"
    by (simp only: m3) simp
  moreover have "\<forall>ch \<in> set (kind ?get). plain_char ch"
    by (simp add: plain_char_def printable_def)
  ultimately have "sublist ([CHR 0x27] @ kind ?get @ [CHR 0x27]) msg"
    using msg(3) by blast
  then have 4: "sublist ([CHR 0x27] @ ''get'' @ [CHR 0x27]) msg" by simp
  from 1 2 msg(1) 4 show ?thesis unfolding t by blast
qed

section \<open>Reading the attributes of a job\<close>

lemma py_getattr_own:
  "dict_get (attrs j) k = Some v \<Longrightarrow> k \<notin> set refused_names \<Longrightarrow> py_getattr cs j k = Inr (Val v)"
  by (simp add: py_getattr_def refused_names_def)

lemma py_getattr_kind:
  "''__kind__'' \<notin> set (keys (attrs j)) \<Longrightarrow>
   py_getattr cs j ''__kind__'' = Inr (Val (Data (PStr (kind (jcls j)))))"
  by (simp add: py_getattr_def class_lookup_def dict_get_None_iff [symmetric])

lemma required_of_class:
  "''__required__'' \<notin> set (keys (attrs j)) \<Longrightarrow> required_of j = Inr (required (jcls j))"
  by (simp add: required_of_def dict_get_None_iff [symmetric])

lemma optional_of_class:
  "''__optional__'' \<notin> set (keys (attrs j)) \<Longrightarrow> optional_of j = Inr (optional (jcls j))"
  by (simp add: optional_of_def dict_get_None_iff [symmetric])

lemma collect_fields_append:
  "collect_fields cs j rs = Inr a \<Longrightarrow> collect_fields cs j os = Inr b \<Longrightarrow>
   collect_fields cs j (rs @ os) = Inr (a @ b)"
  by (induction rs arbitrary: a) (auto split: sum.splits if_splits)

lemma collect_fields_split:
  "collect_fields cs j (rs @ os) = Inr c \<Longrightarrow>
   \<exists>a b. collect_fields cs j rs = Inr a \<and> collect_fields cs j os = Inr b \<and> c = a @ b"
  by (induction rs arbitrary: c) (auto split: sum.splits if_splits)

text \<open>
  The items of \<open>to_dict\<close> when every name is an attribute of the instance that holds a
  value of a record.
\<close>

lemma collect_fields_data:
  "\<forall>k \<in> set ks. k \<notin> set refused_names \<and> (\<exists>v. dict_get (attrs j) k = Some (Data v)) \<Longrightarrow>
   \<exists>items. collect_fields cs j ks = Inr (record_avals items)
     \<and> set items = {(k, v). k \<in> set ks \<and> dict_get (attrs j) k = Some (Data v) \<and> v \<noteq> PNone}"
proof (induction ks)
  case Nil
  show ?case by (intro exI [of _ "[]"]) (simp add: record_avals_def)
next
  case (Cons k ks)
  then obtain items where i: "collect_fields cs j ks = Inr (record_avals items)"
      "set items = {(k, v). k \<in> set ks \<and> dict_get (attrs j) k = Some (Data v) \<and> v \<noteq> PNone}"
    by auto
  from Cons.prems obtain v where v: "dict_get (attrs j) k = Some (Data v)" "k \<notin> set refused_names"
    by auto
  have g: "py_getattr cs j k = Inr (Val (Data v))" using v by (rule py_getattr_own)
  show ?case
  proof (cases "v = PNone")
    case True
    then have "collect_fields cs j (k # ks) = Inr (record_avals items)"
      by (simp add: g i(1))
    moreover have "set items
        = {(k', v). k' \<in> set (k # ks) \<and> dict_get (attrs j) k' = Some (Data v) \<and> v \<noteq> PNone}"
      using i(2) v(1) True by auto
    ultimately show ?thesis by blast
  next
    case False
    then have "collect_fields cs j (k # ks) = Inr (record_avals ((k, v) # items))"
      by (simp add: g i(1) record_avals_def)
    moreover have "set ((k, v) # items)
        = {(k', v). k' \<in> set (k # ks) \<and> dict_get (attrs j) k' = Some (Data v) \<and> v \<noteq> PNone}"
      using i(2) v(1) False by auto
    ultimately show ?thesis by blast
  qed
qed

lemma keys_record_avals: "keys (record_avals r) = keys r"
  by (induction r) (auto simp: keys_def record_avals_def)

lemma dict_set_record_avals:
  "dict_set (record_avals a) k (Val (Data v)) = record_avals (dict_set a k v)"
proof (cases "k \<in> set (keys a)")
  case True
  have "map (\<lambda>(k', v'). if k' = k then (k', Val (Data v)) else (k', v')) (record_avals a)
      = record_avals (map (\<lambda>(k', v'). if k' = k then (k', v) else (k', v')) a)"
    by (induction a) (auto simp: record_avals_def)
  with True show ?thesis by (simp add: dict_set_def keys_record_avals)
next
  case False
  then show ?thesis by (simp add: dict_set_def keys_record_avals) (simp add: record_avals_def)
qed

lemma set_all_record_avals:
  "set_all (record_avals kvs) (record_avals a) = record_avals (set_all kvs a)"
proof (induction kvs arbitrary: a)
  case Nil
  show ?case by (simp add: record_avals_def)
next
  case (Cons kv kvs)
  obtain k v where kv: "kv = (k, v)" by (cases kv)
  have "record_avals (kv # kvs) = (k, Val (Data v)) # record_avals kvs"
    by (simp add: kv record_avals_def)
  then show ?case using Cons [of "dict_set a k v"] by (simp add: kv dict_set_record_avals)
qed

lemma dict_of_record_avals: "dict_of (record_avals kvs) = record_avals (dict_of kvs)"
  using set_all_record_avals [of kvs "[]"] by (simp add: dict_of_def record_avals_def)

text \<open>
  What \<open>serialize\<close> gives for a job without the attributes that hide \<open>__kind__\<close>,
  \<open>__required__\<close>, \<open>__optional__\<close> and \<open>to_dict\<close>, whose fields hold values of a record.
\<close>

lemma serialize_data:
  assumes n: "\<forall>n \<in> set [''__kind__'', ''__required__'', ''__optional__'', ''to_dict''].
           n \<notin> set (keys (attrs j))"
    and f: "\<forall>k \<in> set (required (jcls j) @ optional (jcls j)).
           k \<notin> set refused_names \<and> (\<exists>v. dict_get (attrs j) k = Some (Data v))"
  shows "\<exists>items. set items = {(k, v). k \<in> set (required (jcls j) @ optional (jcls j))
                     \<and> dict_get (attrs j) k = Some (Data v) \<and> v \<noteq> PNone}
     \<and> to_dict cs j = Inr (record_avals (dict_of items))
     \<and> serialize cs j
         = Inr (record_avals (dict_update [(''kind'', PStr (kind (jcls j)))] (dict_of items)))"
proof -
  let ?ks = "required (jcls j) @ optional (jcls j)"
  from collect_fields_data [OF f, of cs] obtain items where
    i: "collect_fields cs j ?ks = Inr (record_avals items)"
      "set items = {(k, v). k \<in> set ?ks \<and> dict_get (attrs j) k = Some (Data v) \<and> v \<noteq> PNone}"
    by blast
  from collect_fields_split [OF i(1)] obtain a b where
    ab: "collect_fields cs j (required (jcls j)) = Inr a"
      "collect_fields cs j (optional (jcls j)) = Inr b" "record_avals items = a @ b"
    by blast
  have r: "required_of j = Inr (required (jcls j))" using n by (simp add: required_of_class)
  have o: "optional_of j = Inr (optional (jcls j))" using n by (simp add: optional_of_class)
  have t: "to_dict cs j = Inr (record_avals (dict_of items))"
    by (simp add: to_dict_def r o ab(1,2) ab(3) [symmetric] dict_of_record_avals)
  have k: "py_getattr cs j ''__kind__'' = Inr (Val (Data (PStr (kind (jcls j)))))"
    using n by (simp add: py_getattr_kind)
  have "dict_update [(''kind'', Val (Data (PStr (kind (jcls j)))))] (record_avals (dict_of items))
      = record_avals (dict_update [(''kind'', PStr (kind (jcls j)))] (dict_of items))"
    using set_all_record_avals [of "dict_of items" "[(''kind'', PStr (kind (jcls j)))]"]
    by (simp add: dict_update_def record_avals_def)
  then have s: "serialize cs j
         = Inr (record_avals (dict_update [(''kind'', PStr (kind (jcls j)))] (dict_of items)))"
    using n by (simp add: serialize_def k t)
  from i(2) t s show ?thesis by blast
qed

section \<open>Foreign fields of a record\<close>








lemma wf_subclasses: "wf_registry subclasses"
  using plain_ShellJob plain_UrlJob plain_BrowserJob
  by (simp add: wf_registry_def subclasses_def keys_def)
     (simp add: ShellJob_def UrlJob_def BrowserJob_def)



section \<open>The round trip of serialization\<close>

lemma collect_fields_cong:
  "\<forall>k \<in> set ks. py_getattr cs j' k = py_getattr cs j k \<Longrightarrow>
   collect_fields cs j' ks = collect_fields cs j ks"
  by (induction ks) (auto split: option.splits sum.splits)

lemma record_avals_inj: "record_avals r = record_avals r' \<Longrightarrow> r = r'"
proof (induction r arbitrary: r')
  case Nil
  then show ?case by (simp add: record_avals_def)
next
  case (Cons a r)
  then obtain b s where r': "r' = b # s" by (cases r') (auto simp: record_avals_def)
  with Cons.prems have "a = b" "record_avals r = record_avals s"
    by (auto simp: record_avals_def split: prod.splits)
  with Cons.IH r' show ?case by simp
qed

lemma roundtrip_core:
  assumes v: "valid_job reg j"
  defines "c \<equiv> jcls j"
  defines "ks \<equiv> required (jcls j) @ optional (jcls j)"
  shows "\<exists>items j'.
       serialize cs j = Inr (record_avals (dict_update [(''kind'', PStr (kind c))] (dict_of items)))
     \<and> unserialize reg (dict_update [(''kind'', PStr (kind c))] (dict_of items)) = Inr j'
     \<and> jcls j' = c
     \<and> (\<forall>k \<in> set ks. dict_get (attrs j') k = dict_get (attrs j) k)
     \<and> to_dict cs j' = to_dict cs j
     \<and> (length (detect_kinds reg (dict_pop (dict_update [(''kind'', PStr (kind c))] (dict_of items)) ''kind'')) \<le> 1
          \<longrightarrow> unserialize reg (dict_pop (dict_update [(''kind'', PStr (kind c))] (dict_of items)) ''kind'') = Inr j')"
proof -
  have reg: "dict_get reg (kind c) = Some c"
    and pc: "plain_class c"
    and nk: "''kind'' \<notin> set ks"
    and sh: "\<forall>n \<in> set [''__kind__'', ''__required__'', ''__optional__'', ''to_dict''].
           n \<notin> set (keys (attrs j))"
    and req: "\<forall>k \<in> set (required c). \<exists>v. dict_get (attrs j) k = Some (Data v) \<and> v \<noteq> PNone"
    and opt: "\<forall>k \<in> set (optional c). \<exists>v. dict_get (attrs j) k = Some (Data v)"
    using v by (auto simp: valid_job_def c_def ks_def)
  have ksc: "set ks = set (required c) \<union> set (optional c)" by (simp add: ks_def c_def)
  have fl: "\<forall>k \<in> set (required (jcls j) @ optional (jcls j)).
           k \<notin> set refused_names \<and> (\<exists>v. dict_get (attrs j) k = Some (Data v))"
    using req opt plain_class_names(1) [OF pc] by (auto simp: c_def)
  from serialize_data [OF sh fl, of cs] obtain items where
    si: "set items = {(k, v). k \<in> set ks \<and> dict_get (attrs j) k = Some (Data v) \<and> v \<noteq> PNone}"
    and tdj: "to_dict cs j = Inr (record_avals (dict_of items))"
    and ser: "serialize cs j
         = Inr (record_avals (dict_update [(''kind'', PStr (kind c))] (dict_of items)))"
    by (auto simp: ks_def c_def)
  have fi: "functional items" using si by (auto simp: functional_def)
  let ?td = "dict_of items"
  let ?tag = "(''kind'', PStr (kind c))"
  let ?d = "dict_update [?tag] ?td"
  let ?P = "\<lambda>k. k \<in> set (required c) \<or> k \<in> set (optional c)"
  let ?kw = "dict_of (filter (\<lambda>(k, v). ?P k) ?d)"
  have td: "dict_get ?td k = Some x \<longleftrightarrow> k \<in> set ks \<and> dict_get (attrs j) k = Some (Data x) \<and> x \<noteq> PNone"
    for k x
    using si by (simp add: dict_get_dict_of_functional [OF fi] map_of_functional [OF fi])
  have ftd: "functional ?td" by (rule functional_distinct) (rule distinct_keys_dict_of)
  have d: "dict_get ?d k = (case dict_get ?td k of None \<Rightarrow> dict_get [?tag] k | Some x \<Rightarrow> Some x)"
    for k
    by (simp add: dict_update_def dict_get_set_all map_of_rev_functional [OF ftd])
       (simp add: dict_get_def)
  have dd: "distinct (keys ?d)"
    by (simp add: dict_update_def distinct_keys_set_all keys_Cons keys_Nil)
  have ktd: "''kind'' \<notin> set (keys ?td)"
  proof
    assume "''kind'' \<in> set (keys ?td)"
    then obtain x where "dict_get ?td ''kind'' = Some x"
      by (cases "dict_get ?td ''kind''") (auto simp: dict_get_None_iff)
    with nk show False by (simp add: td)
  qed
  have dkind: "dict_get ?d ''kind'' = Some (PStr (kind c))"
  proof -
    have "dict_get ?td ''kind'' = None" using ktd by (simp add: dict_get_None_iff)
    then show ?thesis by (simp add: d) (simp add: dict_get_def)
  qed
  have kd: "''kind'' \<in> set (keys ?d)" using dkind by (rule dict_get_Some_keys)
  have ff: "functional (filter (\<lambda>(k, v). ?P k) ?d)"
    by (rule functional_distinct) (rule distinct_keys_filter [OF dd])
  have kw: "dict_get ?kw k = (if ?P k then dict_get ?td k else None)" for k
  proof (cases "?P k")
    case True
    then have "k \<noteq> ''kind''" using nk by (auto simp: ksc)
    then have "dict_get ?d k = dict_get ?td k"
      by (simp add: d split: option.splits) (simp add: dict_get_def)
    with True show ?thesis
      by (simp add: dict_get_dict_of_functional [OF ff] map_of_filter_keys)
         (simp add: dict_get_def)
  next
    case False
    then show ?thesis
      by (simp add: dict_get_dict_of_functional [OF ff] map_of_filter_keys)
  qed
  have kkw: "set (keys ?kw) \<subseteq> set ks"
    unfolding from_dict_keys ksc by auto
  have rk: "set (required c) \<subseteq> set (keys ?kw)"
  proof
    fix r assume r: "r \<in> set (required c)"
    with req obtain x where "dict_get (attrs j) r = Some (Data x)" "x \<noteq> PNone" by blast
    with r have "dict_get ?td r = Some x" by (simp add: td ksc)
    with r have "dict_get ?kw r = Some x" by (simp add: kw)
    then show "r \<in> set (keys ?kw)" by (rule dict_get_Some_keys)
  qed
  have ns: "''self'' \<notin> set (keys ?kw)"
    using kkw plain_class_names(2) [OF pc] by (auto simp: ksc)
  have nr: "\<forall>k \<in> set (keys ?kw). k \<notin> set refused_names"
    using kkw plain_class_names(1) [OF pc] by (auto simp: ksc)
  from new_job_ok [OF pc ns rk nr] obtain j' where
    nj: "new_job c ?kw = Inr j'" and jc: "jcls j' = c"
    and g: "\<forall>k. dict_get (attrs j') k =
          (if k = ''loop'' \<and> is_async c then Some (Data PNone)
           else case map_of (rev ?kw) k of
                  Some v \<Rightarrow> Some (Data v)
                | None \<Rightarrow> if k \<in> set (optional c) \<and> k \<notin> set (keys ?kw) then Some (Data PNone)
                          else None)"
    and kj': "set (keys (attrs j')) =
        set (keys ?kw) \<union> set (optional c) \<union> (if is_async c then {''loop''} else {})"
    by blast
  have fkw: "functional ?kw" by (rule functional_distinct) (rule distinct_keys_dict_of)
  have mkw: "map_of (rev ?kw) k = dict_get ?kw k" for k
    by (simp add: map_of_rev_functional [OF fkw] dict_get_def)
  have nl: "\<not> (k = ''loop'' \<and> is_async c)" if "k \<in> set ks" for k
    using that pc by (auto simp: plain_class_def ksc)
  have agree: "\<forall>k \<in> set ks. dict_get (attrs j') k = dict_get (attrs j) k"
  proof
    fix k assume k: "k \<in> set ks"
    then have P: "?P k" by (simp add: ksc)
    from k req opt obtain x where x: "dict_get (attrs j) k = Some (Data x)" by (auto simp: ksc)
    have g': "dict_get (attrs j') k = (case dict_get ?kw k of
                  Some v \<Rightarrow> Some (Data v)
                | None \<Rightarrow> if k \<in> set (optional c) \<and> k \<notin> set (keys ?kw) then Some (Data PNone)
                          else None)"
    proof -
      have c: "(k = ''loop'' \<and> is_async c) = False" using nl [OF k] by simp
      show ?thesis by (simp only: g [THEN spec, of k] c if_False mkw)
    qed
    show "dict_get (attrs j') k = dict_get (attrs j) k"
    proof (cases "x = PNone")
      case False
      with x k have "dict_get ?td k = Some x" by (simp add: td)
      with P have "dict_get ?kw k = Some x" by (simp add: kw)
      then show ?thesis by (simp add: g' x)
    next
      case True
      have "dict_get ?td k = None"
      proof (cases "dict_get ?td k")
        case None
        then show ?thesis .
      next
        case (Some y)
        then have "dict_get (attrs j) k = Some (Data y) \<and> y \<noteq> PNone" by (simp add: td)
        with x True show ?thesis by simp
      qed
      with P have n: "dict_get ?kw k = None" by (simp add: kw)
      have "k \<notin> set (required c)" using req x True by auto
      with P have "k \<in> set (optional c)" by simp
      moreover from n have "k \<notin> set (keys ?kw)" by (simp add: dict_get_None_iff)
      ultimately show ?thesis using n by (simp add: g' x True)
    qed
  qed
  have look: "subclass_lookup reg (PStr (kind c)) = Inr c"
    by (simp add: subclass_lookup_def reg)
  have uns: "unserialize reg ?d = Inr j'"
    using kd by (simp add: unserialize_def unserialize_kind_def dkind look from_dict_def nj)
  have auto_detect: "unserialize reg (dict_pop ?d ''kind'') = Inr j'"
    if le: "length (detect_kinds reg (dict_pop ?d ''kind'')) \<le> 1"
  proof -
    let ?dp = "dict_pop ?d ''kind''"
    have k0: "set (keys ?dp) = set (keys ?td)"
      using ktd
      by (auto simp: set_keys_dict_pop dict_update_def set_keys_set_all keys_Cons keys_Nil)
    have nk0: "''kind'' \<notin> set (keys ?dp)" using ktd by (simp add: k0)
    have sub: "set (keys ?td) \<subseteq> set ks"
    proof
      fix k assume "k \<in> set (keys ?td)"
      then obtain x where "dict_get ?td k = Some x"
        by (cases "dict_get ?td k") (auto simp: dict_get_None_iff)
      then show "k \<in> set ks" by (simp add: td)
    qed
    have "set (required c) \<subseteq> set (keys ?td)"
    proof
      fix r assume r: "r \<in> set (required c)"
      with req obtain x where "dict_get (attrs j) r = Some (Data x)" "x \<noteq> PNone" by blast
      with r have "dict_get ?td r = Some x" by (simp add: td ksc)
      then show "r \<in> set (keys ?td)" by (rule dict_get_Some_keys)
    qed
    then have m: "matches c ?dp"
      using sub by (auto simp: matches_def k0 ksc)
    have "(kind c, c) \<in> set reg" using reg by (auto simp: dict_get_def dest: map_of_SomeD)
    then have "c \<in> set (map snd reg)" by force
    with m have "kind c \<in> set (detect_kinds reg ?dp)" by (simp add: detect_kinds_def)
    with le have dk: "detect_kinds reg ?dp = [kind c]"
      by (cases "detect_kinds reg ?dp") auto
    have fe: "filter (\<lambda>(k, v). ?P k) ?dp = filter (\<lambda>(k, v). ?P k) ?d"
      using nk by (auto simp: dict_pop_def ksc intro!: filter_cong)
    have "from_dict c ?dp = new_job c (dict_of (filter (\<lambda>(k, v). ?P k) ?dp))"
      by (rule from_dict_def)
    also have "\<dots> = new_job c ?kw"
      by (rule arg_cong [where f = "\<lambda>x. new_job c (dict_of x)", OF fe])
    also note nj
    finally have fd: "from_dict c ?dp = Inr j'" .
    have uk: "unserialize_kind reg ?dp = Inr (PStr (kind c))"
      using nk0 by (simp add: unserialize_kind_def dk)
    show ?thesis by (simp add: unserialize_def uk look fd)
  qed
  have shj': "\<forall>n \<in> set [''__kind__'', ''__required__'', ''__optional__'', ''to_dict''].
           n \<notin> set (keys (attrs j'))"
  proof
    fix n assume n: "n \<in> set [''__kind__'', ''__required__'', ''__optional__'', ''to_dict'']"
    show "n \<notin> set (keys (attrs j'))"
    proof
      assume "n \<in> set (keys (attrs j'))"
      with kj' kkw n have "n \<in> set (required c) \<or> n \<in> set (optional c)"
        by (auto simp: ksc split: if_splits)
      from plain_class_names(3-6) [OF pc this] n show False by auto
    qed
  qed
  have same: "\<forall>k \<in> set ks. py_getattr cs j' k = py_getattr cs j k"
  proof
    fix k assume k: "k \<in> set ks"
    then have r: "k \<notin> set refused_names" using plain_class_names(1) [OF pc] by (auto simp: ksc)
    from k req opt obtain x where x: "dict_get (attrs j) k = Some (Data x)" by (auto simp: ksc)
    with agree k have x': "dict_get (attrs j') k = Some (Data x)" by simp
    show "py_getattr cs j' k = py_getattr cs j k"
      by (simp add: py_getattr_own [OF x r] py_getattr_own [OF x' r])
  qed
  have tdj': "to_dict cs j' = to_dict cs j"
  proof -
    have r: "required_of j' = Inr (required c)"
      using shj' by (simp add: required_of_class jc)
    have o: "optional_of j' = Inr (optional c)"
      using shj' by (simp add: optional_of_class jc)
    have rj: "required_of j = Inr (required c)" using sh by (simp add: required_of_class c_def)
    have oj: "optional_of j = Inr (optional c)" using sh by (simp add: optional_of_class c_def)
    have cr: "collect_fields cs j' (required c) = collect_fields cs j (required c)"
      using same by (intro collect_fields_cong) (simp add: ksc)
    have co: "collect_fields cs j' (optional c) = collect_fields cs j (optional c)"
      using same by (intro collect_fields_cong) (simp add: ksc)
    show ?thesis unfolding to_dict_def r o rj oj sum.case cr co by (rule refl)
  qed
  from ser uns jc agree tdj' auto_detect show ?thesis by blast
qed

text \<open>
  C1. A valid job serializes to a record from which \<open>unserialize\<close> builds a job of the
  same class whose required and optional fields hold the same values, so that both have
  the same populated fields (\<open>to_dict\<close>). The same job is built from the record without
  its \<open>kind\<close> entry whenever auto-detection finds no more than one matching kind.
\<close>

theorem serialize_roundtrip:
  "valid_job reg j \<Longrightarrow>
   \<exists>r j'. serialize cs j = Inr (record_avals r) \<and> unserialize reg r = Inr j' \<and> jcls j' = jcls j
     \<and> (\<forall>k \<in> set (required (jcls j) @ optional (jcls j)).
           dict_get (attrs j') k = dict_get (attrs j) k)
     \<and> to_dict cs j' = to_dict cs j
     \<and> (length (detect_kinds reg (dict_pop r ''kind'')) \<le> 1 \<longrightarrow>
            unserialize reg (dict_pop r ''kind'') = Inr j')"
proof -
  assume v: "valid_job reg j"
  from roundtrip_core [OF v, of cs] obtain items j' where
    f: "serialize cs j
        = Inr (record_avals (dict_update [(''kind'', PStr (kind (jcls j)))] (dict_of items)))"
      "unserialize reg (dict_update [(''kind'', PStr (kind (jcls j)))] (dict_of items)) = Inr j'"
      "jcls j' = jcls j"
      "\<forall>k \<in> set (required (jcls j) @ optional (jcls j)).
           dict_get (attrs j') k = dict_get (attrs j) k"
      "to_dict cs j' = to_dict cs j"
      "length (detect_kinds reg (dict_pop (dict_update [(''kind'', PStr (kind (jcls j)))] (dict_of items)) ''kind'')) \<le> 1
          \<longrightarrow> unserialize reg (dict_pop (dict_update [(''kind'', PStr (kind (jcls j)))] (dict_of items)) ''kind'') = Inr j'"
    by blast
  show ?thesis
    by (rule exI [of _ "dict_update [(''kind'', PStr (kind (jcls j)))] (dict_of items)"],
        rule exI [of _ j'])
       (intro conjI f)
qed

lemma example_job_new:
  "new_job ShellJob [(''command'', PStr ''ls''), (''name'', PStr ''list'')] = Inr example_job"
  by (simp add: new_job_def JobBase_init_def optional_of_def required_of_def py_setattr_def
      dict_set_def dict_get_def keys_def is_async_def ShellJob_def Job_optional_def
      example_job_def)

lemma example_job_valid: "valid_job subclasses example_job"
proof -
  have "jcls example_job = ShellJob" by (simp add: example_job_def)
  then have "plain_class (jcls example_job)" using plain_ShellJob by simp
  then show ?thesis
    by (simp add: valid_job_def)
       (simp add: example_job_def subclasses_def ShellJob_def Job_optional_def dict_get_def
         keys_def)
qed

lemma example_job_serialize:
  "serialize None example_job
     = Inr (record_avals [(''kind'', PStr ''shell''), (''command'', PStr ''ls''),
                          (''name'', PStr ''list'')])"
  by (simp add: serialize_def to_dict_def py_getattr_def class_lookup_def required_of_def
      optional_of_def example_job_def ShellJob_def Job_optional_def dict_get_def dict_of_def
      dict_update_def dict_set_def keys_def record_avals_def)

lemma example_record_detect:
  "length (detect_kinds subclasses
     (dict_pop [(''kind'', PStr ''shell''), (''command'', PStr ''ls''), (''name'', PStr ''list'')]
        ''kind'')) \<le> 1"
  by (simp add: detect_kinds_def matches_def subclasses_def ShellJob_def UrlJob_def BrowserJob_def
      Job_optional_def dict_pop_def keys_def)

theorem serialize_roundtrip_witness:
  "valid_job subclasses example_job
   \<and> serialize None example_job
       = Inr (record_avals [(''kind'', PStr ''shell''), (''command'', PStr ''ls''),
                            (''name'', PStr ''list'')])
   \<and> (\<exists>j'. unserialize subclasses [(''kind'', PStr ''shell''), (''command'', PStr ''ls''),
                                (''name'', PStr ''list'')] = Inr j'
      \<and> jcls j' = ShellJob
      \<and> dict_get (attrs j') ''command'' = Some (Data (PStr ''ls''))
      \<and> dict_get (attrs j') ''filter'' = Some (Data PNone)
      \<and> to_dict None j' = to_dict None example_job
      \<and> unserialize subclasses [(''command'', PStr ''ls''), (''name'', PStr ''list'')] = Inr j')"
proof -
  let ?r = "[(''kind'', PStr ''shell''), (''command'', PStr ''ls''), (''name'', PStr ''list'')]"
  from serialize_roundtrip [OF example_job_valid, of None] obtain r j' where
      s: "serialize None example_job = Inr (record_avals r)"
    and u: "unserialize subclasses r = Inr j'"
    and c: "jcls j' = jcls example_job"
    and a: "\<forall>k \<in> set (required (jcls example_job) @ optional (jcls example_job)).
           dict_get (attrs j') k = dict_get (attrs example_job) k"
    and t: "to_dict None j' = to_dict None example_job"
    and p: "length (detect_kinds subclasses (dict_pop r ''kind'')) \<le> 1 \<longrightarrow>
            unserialize subclasses (dict_pop r ''kind'') = Inr j'"
    by blast
  have r: "r = ?r"
    using s by (simp only: example_job_serialize sum.inject) (rule record_avals_inj [symmetric])
  have 0: "unserialize subclasses ?r = Inr j'" using u by (simp only: r)
  have "unserialize subclasses (dict_pop ?r ''kind'') = Inr j'"
    using p example_record_detect by (simp only: r)
  then have 1: "unserialize subclasses [(''command'', PStr ''ls''), (''name'', PStr ''list'')] = Inr j'"
    by (simp add: dict_pop_def)
  have 2: "dict_get (attrs j') ''command'' = Some (Data (PStr ''ls''))"
      "dict_get (attrs j') ''filter'' = Some (Data PNone)"
    using a by (simp_all add: example_job_def ShellJob_def Job_optional_def dict_get_def)
  have 3: "jcls j' = ShellJob" using c by (simp add: example_job_def)
  have e: "\<exists>j'. unserialize subclasses ?r = Inr j'
      \<and> jcls j' = ShellJob
      \<and> dict_get (attrs j') ''command'' = Some (Data (PStr ''ls''))
      \<and> dict_get (attrs j') ''filter'' = Some (Data PNone)
      \<and> to_dict None j' = to_dict None example_job
      \<and> unserialize subclasses [(''command'', PStr ''ls''), (''name'', PStr ''list'')] = Inr j'"
    by (rule exI [of _ j']) (intro conjI 0 1 2 3 t)
  show ?thesis by (intro conjI example_job_valid example_job_serialize e)
qed

section \<open>Custom headers\<close>





lemma example_url_job_new:
  "new_job UrlJob [(''url'', PStr ''http://example.org/''),
                   (''headers'', PDict [(''content-type'', ''text/plain'')])] = Inr example_url_job"
  by (simp add: new_job_def JobBase_init_def optional_of_def required_of_def py_setattr_def
      dict_set_def dict_get_def keys_def is_async_def UrlJob_def Job_optional_def
      example_url_job_def)



end
